theory Spec2Isabelle
  imports Complex_Main "HOL-Library.Signed_Division"
begin

section \<open>Strings and numbers as the Python code uses them\<close>

text \<open>
  Python strings are modelled as \<open>string\<close> (lists of 8-bit characters), so \<open>str.lower()\<close>
  is the ASCII lower-casing. \<open>str(n)\<close> of an integer is its decimal numeral.
\<close>

definition lower_char :: "char \<Rightarrow> char" where
  "lower_char c =
     (case map_of (zip ''ABCDEFGHIJKLMNOPQRSTUVWXYZ'' ''abcdefghijklmnopqrstuvwxyz'') c of
        Some l \<Rightarrow> l
      | None \<Rightarrow> c)"

definition lower :: "string \<Rightarrow> string" where
  "lower s = map lower_char s"

definition digit_char :: "nat \<Rightarrow> char" where
  "digit_char d = ''0123456789'' ! d"

fun str_nat :: "nat \<Rightarrow> string" where
  "str_nat n =
     (if n < 10 then [digit_char n] else str_nat (n div 10) @ [digit_char (n mod 10)])"

declare str_nat.simps [simp del]

definition str_int :: "int \<Rightarrow> string" where
  "str_int i = (if i < 0 then CHR ''-'' # str_nat (nat (- i)) else str_nat (nat i))"

definition digit_val :: "char \<Rightarrow> nat" where
  "digit_val c = of_char c - 48"

text \<open>\<open>sep.join(parts)\<close> and \<open>s.split(sep)\<close> for a one-character separator.\<close>

fun join :: "char \<Rightarrow> string list \<Rightarrow> string" where
  "join sep [] = []"
| "join sep [w] = w"
| "join sep (w # v # ws) = w @ sep # join sep (v # ws)"

fun split_sep :: "char \<Rightarrow> string \<Rightarrow> string list" where
  "split_sep sep [] = [[]]"
| "split_sep sep (c # cs) =
     (if c = sep then [] # split_sep sep cs
      else (case split_sep sep cs of
              [] \<Rightarrow> [[c]]
            | w # ws \<Rightarrow> (c # w) # ws))"

text \<open>\<open>s.rfind(c)\<close>: the index of the last occurrence, \<open>None\<close> for Python's \<open>-1\<close>.\<close>

fun rfind :: "char \<Rightarrow> string \<Rightarrow> nat option" where
  "rfind c [] = None"
| "rfind c (x # xs) =
     (case rfind c xs of
        Some i \<Rightarrow> Some (Suc i)
      | None \<Rightarrow> (if x = c then Some 0 else None))"


section \<open>Paths (pathlib, POSIX flavour)\<close>

text \<open>
  A \<open>Path\<close> is modelled by its \<open>parts\<close> tuple: the components in order, an absolute path
  starting with its root (\<open>/\<close>, or \<open>//\<close> for exactly two leading slashes). The empty list
  is \<open>Path('.')\<close>.
\<close>

type_synonym path = "string list"

definition root_of :: "string \<Rightarrow> string" where
  "root_of s =
     (if take 2 s = ''//'' \<and> take 3 s \<noteq> ''///'' then ''//''
      else if take 1 s = ''/'' then ''/''
      else [])"

definition Path :: "string \<Rightarrow> path" where
  "Path s =
     (if root_of s = [] then [] else [root_of s])
       @ filter (\<lambda>c. c \<noteq> [] \<and> c \<noteq> ''.'') (split_sep CHR ''/'' s)"

definition is_root :: "path \<Rightarrow> bool" where
  "is_root p = (p = [''/''] \<or> p = [''//''])"

definition str :: "path \<Rightarrow> string" where
  "str p =
     (case p of
        [] \<Rightarrow> ''.''
      | r # rest \<Rightarrow>
          if r = ''/'' \<or> r = ''//'' then r @ join CHR ''/'' rest else join CHR ''/'' p)"

definition name :: "path \<Rightarrow> string" where
  "name p = (if p = [] \<or> is_root p then [] else last p)"

definition parent :: "path \<Rightarrow> path" where
  "parent p = (if p = [] \<or> is_root p then p else butlast p)"

text \<open>
  \<open>suffix\<close> and \<open>stem\<close> split the name at its last dot, unless that dot is the first or
  the last character of the name (\<open>0 < i < len(name) - 1\<close>).
\<close>

definition suffix :: "path \<Rightarrow> string" where
  "suffix p =
     (let n = name p in
      case rfind CHR ''.'' n of
        Some i \<Rightarrow> if 0 < i \<and> i + 1 < length n then drop i n else []
      | None \<Rightarrow> [])"

definition stem :: "path \<Rightarrow> string" where
  "stem p =
     (let n = name p in
      case rfind CHR ''.'' n of
        Some i \<Rightarrow> if 0 < i \<and> i + 1 < length n then take i n else n
      | None \<Rightarrow> n)"

text \<open>\<open>p / s\<close> for a single component \<open>s\<close>; joining the empty string leaves \<open>p\<close>.\<close>

definition joinpath :: "path \<Rightarrow> string \<Rightarrow> path" where
  "joinpath p s = (if s = [] then p else p @ [s])"

text \<open>
  The exceptions the tool can meet. All are instances of \<open>Exception\<close> except
  \<open>SystemExit\<close>, which \<open>sys.exit\<close> raises and \<open>except Exception\<close> does not catch.
\<close>

datatype exn =
    ValueError
  | FileExistsError
  | FileNotFoundError
  | NotADirectoryError
  | OSError
  | UnicodeDecodeError
  | ClickException string
  | SystemExit int

definition is_Exception :: "exn \<Rightarrow> bool" where
  "is_Exception e = (case e of SystemExit code \<Rightarrow> False | _ \<Rightarrow> True)"

definition with_name :: "path \<Rightarrow> string \<Rightarrow> exn + path" where
  "with_name p n =
     (if name p = [] then Inl ValueError
      else if n = [] \<or> n = ''.'' \<or> CHR ''/'' \<in> set n then Inl ValueError
      else Inr (butlast p @ [n]))"

definition with_suffix :: "path \<Rightarrow> string \<Rightarrow> exn + path" where
  "with_suffix p s =
     (if CHR ''/'' \<in> set s \<or> (s \<noteq> [] \<and> take 1 s \<noteq> ''.'') \<or> s = ''.'' then Inl ValueError
      else if name p = [] then Inl ValueError
      else Inr (butlast p @ [stem p @ s]))"


section \<open>The quality mapping of image compress\<close>

text \<open>
  \<open>q = max(2, min(31, int((100 - quality) / 3)))\<close>. \<open>/\<close> is true division and \<open>int\<close>
  truncates towards zero; for an integer numerator this is the truncating quotient
  \<open>sdiv\<close> (the float quotient of an integer below \<open>2^53\<close> by 3 never rounds across an
  integer).
\<close>

definition compress_quality :: "int \<Rightarrow> int" where
  "compress_quality quality = max 2 (min 31 ((100 - quality) sdiv 3))"

text \<open>The command of one file in image compress, from its source, destination and quality.\<close>

definition compress_cmd :: "path \<Rightarrow> path \<Rightarrow> path \<Rightarrow> int \<Rightarrow> string list" where
  "compress_cmd ffmpeg src dst quality =
     (let ext = lower (suffix src) in
      if ext = ''.png'' then
        [str ffmpeg, ''-i'', str src, ''-compression_level'', ''9'', str dst]
      else
        (let q = compress_quality quality in
         [str ffmpeg, ''-i'', str src, ''-q:v'', str_int q, str dst]))"

text \<open>
  The formula as the specification words it: the quotient rounded to the nearest integer,
  then clamped.
\<close>

definition spec_quality :: "int \<Rightarrow> int" where
  "spec_quality quality = max 2 (min 31 (round ((100 - real_of_int quality) / 3)))"

section \<open>The file system, the naming policy and the backup\<close>

text \<open>
  The disk is a finite table from resolved paths to the kind of entry found there. A
  path is resolved component by component: \<open>..\<close> steps out of a directory, so one file
  has many spellings (\<open>a.mp4\<close>, \<open>sub/../a.mp4\<close>). \<open>Path('.')\<close>, the roots and what lies
  above the start are directories. A symbolic link whose target is missing is an entry
  of its own: it is listed (\<open>lexists\<close>) but \<open>exists()\<close>, which follows links, is false
  for it. Only what the tool asks of the disk is modelled: \<open>exists()\<close>,
  \<open>mkdir(exist_ok=True)\<close>, \<open>rename()\<close> and \<open>unlink()\<close>.
\<close>

datatype kind = File | Dir | DanglingLink

type_synonym fsys = "(path \<times> kind) list"

definition always_dir :: "path \<Rightarrow> bool" where
  "always_dir q = (q = [] \<or> is_root q \<or> last q = ''..'')"

definition is_dir_at :: "fsys \<Rightarrow> path \<Rightarrow> bool" where
  "is_dir_at fs q = (always_dir q \<or> map_of fs q = Some Dir)"

definition up :: "path \<Rightarrow> path" where
  "up q =
     (if q = [] then [''..'']
      else if last q = ''..'' then q @ [''..'']
      else if is_root q then q
      else butlast q)"

fun resolve_from :: "fsys \<Rightarrow> path \<Rightarrow> path \<Rightarrow> path option" where
  "resolve_from fs q [] = Some q"
| "resolve_from fs q (c # cs) =
     (if c = ''..'' then (if is_dir_at fs q then resolve_from fs (up q) cs else None)
      else resolve_from fs (q @ [c]) cs)"

definition resolve :: "fsys \<Rightarrow> path \<Rightarrow> path option" where
  "resolve fs p = resolve_from fs [] p"

definition lookup :: "fsys \<Rightarrow> path \<Rightarrow> kind option" where
  "lookup fs p =
     (case resolve fs p of
        None \<Rightarrow> None
      | Some q \<Rightarrow> if always_dir q then Some Dir else map_of fs q)"

definition lexists :: "fsys \<Rightarrow> path \<Rightarrow> bool" where
  "lexists fs p = (lookup fs p \<noteq> None)"

definition exists :: "fsys \<Rightarrow> path \<Rightarrow> bool" where
  "exists fs p = (lookup fs p = Some File \<or> lookup fs p = Some Dir)"

text \<open>The numbered candidate \<open>dir / f"{base}_{idx}{suffix}"\<close> of both naming loops.\<close>

definition numbered :: "path \<Rightarrow> string \<Rightarrow> nat \<Rightarrow> string \<Rightarrow> path" where
  "numbered dir base idx suf = joinpath dir (base @ ''_'' @ str_nat idx @ suf)"

text \<open>
  Both loops count upwards until a candidate is free. They end because the candidates of
  different numbers are different entries of one directory and the disk holds finitely
  many entries: the number of entries that are candidates of a later number decreases.
\<close>

lemma digit_val_char: "d < 10 \<Longrightarrow> digit_val (digit_char d) = d"
proof -
  assume "d < 10"
  then have "d \<in> {0, 1, 2, 3, 4, 5, 6, 7, 8, 9}"
    by auto
  then show ?thesis
    by (auto simp: digit_val_def digit_char_def)
qed

lemma str_nat_val: "foldl (\<lambda>a c. 10 * a + digit_val c) 0 (str_nat n) = n"
proof (induction n rule: str_nat.induct)
  case (1 n)
  show ?case
  proof (cases "n < 10")
    case True
    then show ?thesis
      by (subst str_nat.simps) (simp add: digit_val_char)
  next
    case False
    then show ?thesis
      using 1 by (subst str_nat.simps) (simp add: digit_val_char)
  qed
qed

lemma str_nat_inj: "str_nat m = str_nat n \<Longrightarrow> m = n"
  by (metis str_nat_val)

lemma numbered_snoc: "numbered dir base i suf = dir @ [base @ ''_'' @ str_nat i @ suf]"
  by (simp add: numbered_def joinpath_def)

lemma resolve_from_append:
  "resolve_from fs q (xs @ ys) =
     (case resolve_from fs q xs of None \<Rightarrow> None | Some r \<Rightarrow> resolve_from fs r ys)"
  by (induction xs arbitrary: q) auto

lemma resolve_snoc:
  "c \<noteq> ''..'' \<Longrightarrow>
     resolve fs (dir @ [c]) = (case resolve fs dir of None \<Rightarrow> None | Some d \<Rightarrow> Some (d @ [c]))"
  by (simp add: resolve_def resolve_from_append split: option.splits)

lemma not_always_dir_snoc:
  "c \<noteq> ''..'' \<Longrightarrow> c \<noteq> ''/'' \<Longrightarrow> c \<noteq> ''//'' \<Longrightarrow> \<not> always_dir (d @ [c])"
  by (cases d) (auto simp: always_dir_def is_root_def)

definition entry_name :: "string \<Rightarrow> nat \<Rightarrow> string \<Rightarrow> string" where
  "entry_name base idx suf = base @ ''_'' @ str_nat idx @ suf"

lemma entry_name_plain:
  "entry_name base i suf \<noteq> ''..'' \<and> entry_name base i suf \<noteq> ''/'' \<and> entry_name base i suf \<noteq> ''//''"
  by (auto simp: entry_name_def append_eq_Cons_conv Cons_eq_append_conv)

lemma entry_name_inj: "entry_name base i suf = entry_name base j suf \<Longrightarrow> i = j"
  by (simp add: entry_name_def str_nat_inj)

lemma numbered_entry: "numbered dir base i suf = dir @ [entry_name base i suf]"
  by (simp add: numbered_snoc entry_name_def)

lemma lookup_numbered:
  "lookup fs (numbered dir base i suf) =
     (case resolve fs dir of
        None \<Rightarrow> None
      | Some d \<Rightarrow> map_of fs (d @ [entry_name base i suf]))"
proof (cases "resolve fs dir")
  case None
  then show ?thesis
    using entry_name_plain[of base i suf] by (simp add: lookup_def numbered_entry resolve_snoc)
next
  case (Some d)
  have "\<not> always_dir (d @ [entry_name base i suf])"
    using entry_name_plain[of base i suf] by (intro not_always_dir_snoc) simp_all
  then show ?thesis
    using Some entry_name_plain[of base i suf]
    by (simp add: lookup_def numbered_entry resolve_snoc)
qed

lemma exists_numbered:
  "exists fs (numbered dir base i suf) \<Longrightarrow>
     \<exists>d. resolve fs dir = Some d \<and> d @ [entry_name base i suf] \<in> set (map fst fs)"
  by (auto simp: exists_def lookup_numbered split: option.splits dest: map_of_SomeD
      intro: rev_image_eqI)

lemma length_filter_strict:
  assumes "\<And>y. Q y \<Longrightarrow> P y" and "x \<in> set xs" and "P x" and "\<not> Q x"
  shows "length (filter Q xs) < length (filter P xs)"
proof -
  have "filter Q xs = filter Q (filter P xs)"
    using assms(1) by (auto intro: filter_cong)
  moreover have "x \<in> set (filter P xs)"
    using assms(2,3) by simp
  ultimately show ?thesis
    using length_filter_less[of x "filter P xs" Q] assms(4) by simp
qed

lemma length_filter_mono:
  assumes "\<And>y. Q y \<Longrightarrow> P y"
  shows "length (filter Q xs) \<le> length (filter P xs)"
  by (induction xs) (auto simp: assms)

definition later_taken :: "fsys \<Rightarrow> path \<Rightarrow> string \<Rightarrow> string \<Rightarrow> nat \<Rightarrow> nat" where
  "later_taken fs dir base suf idx =
     (case resolve fs dir of
        None \<Rightarrow> 0
      | Some d \<Rightarrow> length (filter (\<lambda>q. \<exists>j\<ge>idx. q = d @ [entry_name base j suf]) (map fst fs)))"

lemma later_taken_less:
  assumes "exists fs (numbered dir base idx suf)"
  shows "later_taken fs dir base suf (Suc idx) < later_taken fs dir base suf idx"
proof -
  from exists_numbered[OF assms] obtain d where d: "resolve fs dir = Some d"
      "d @ [entry_name base idx suf] \<in> set (map fst fs)"
    by blast
  have "length (filter (\<lambda>q. \<exists>j\<ge>Suc idx. q = d @ [entry_name base j suf]) (map fst fs))
      < length (filter (\<lambda>q. \<exists>j\<ge>idx. q = d @ [entry_name base j suf]) (map fst fs))"
  proof (rule length_filter_strict[where x = "d @ [entry_name base idx suf]"])
    show "d @ [entry_name base idx suf] \<in> set (map fst fs)"
      by (rule d(2))
    show "\<exists>j\<ge>idx. d @ [entry_name base idx suf] = d @ [entry_name base j suf]"
      by blast
    show "\<not> (\<exists>j\<ge>Suc idx. d @ [entry_name base idx suf] = d @ [entry_name base j suf])"
      using entry_name_inj by fastforce
    show "\<And>y. \<exists>j\<ge>Suc idx. y = d @ [entry_name base j suf] \<Longrightarrow>
              \<exists>j\<ge>idx. y = d @ [entry_name base j suf]"
      using Suc_leD by blast
  qed
  then show ?thesis
    by (simp add: later_taken_def d(1))
qed

lemma later_taken_le: "later_taken fs dir base suf (Suc idx) \<le> later_taken fs dir base suf idx"
proof (cases "resolve fs dir")
  case None
  then show ?thesis
    by (simp add: later_taken_def)
next
  case (Some d)
  have "length (filter (\<lambda>q. \<exists>j\<ge>Suc idx. q = d @ [entry_name base j suf]) (map fst fs))
      \<le> length (filter (\<lambda>q. \<exists>j\<ge>idx. q = d @ [entry_name base j suf]) (map fst fs))"
    by (rule length_filter_mono) (use Suc_leD in blast)
  then show ?thesis
    by (simp add: later_taken_def Some)
qed

text \<open>
  \<open>suggest_path\<close>: \<open>idx = 1; while True: candidate = ...; if not candidate.exists():
  return candidate; idx += 1\<close>.
\<close>

function suggest_path_loop :: "fsys \<Rightarrow> path \<Rightarrow> string \<Rightarrow> string \<Rightarrow> nat \<Rightarrow> path" where
  "suggest_path_loop fs dir base suf idx =
     (let candidate = numbered dir base idx suf in
      if \<not> exists fs candidate then candidate
      else suggest_path_loop fs dir base suf (idx + 1))"
  by pat_completeness auto
termination
  by (relation "measure (\<lambda>(fs, dir, base, suf, idx). later_taken fs dir base suf idx)")
     (simp_all add: later_taken_less)

declare suggest_path_loop.simps [simp del]

definition suggest_path :: "fsys \<Rightarrow> path \<Rightarrow> path" where
  "suggest_path fs p = suggest_path_loop fs (parent p) (stem p) (suffix p) 1"

text \<open>
  The loop of \<open>backup_original\<close>: \<open>while target.exists(): target = backup_dir /
  f"{src.stem}_{counter}{src.suffix}"; counter += 1\<close>.
\<close>

function backup_target :: "fsys \<Rightarrow> path \<Rightarrow> path \<Rightarrow> path \<Rightarrow> nat \<Rightarrow> path" where
  "backup_target fs backup_dir src target counter =
     (if exists fs target then
        backup_target fs backup_dir src
          (numbered backup_dir (stem src) counter (suffix src)) (counter + 1)
      else target)"
  by pat_completeness auto
termination
proof (relation "measure (\<lambda>(fs, backup_dir, src, target, counter).
          (if exists fs target then 1 else 0)
            + later_taken fs backup_dir (stem src) (suffix src) counter)", goal_cases)
  case 1
  show ?case
    by simp
next
  case (2 fs backup_dir src target counter)
  show ?case
    using later_taken_less[of fs backup_dir "stem src" counter "suffix src"]
      later_taken_le[of fs backup_dir "stem src" "suffix src" counter] 2
    by auto
qed

declare backup_target.simps [simp del]

text \<open>
  \<open>mkdir(exist_ok=True)\<close> raises when the path is taken by something that is not a
  directory or when its parent is missing. \<open>rename\<close> (POSIX) raises when the source is
  missing, when the target is a directory or lies inside the source; it replaces a
  target that is a file or a link, and moves a directory with everything below it.
  \<open>unlink\<close> removes a file or a link and refuses a directory.
\<close>

definition mkdir_exist_ok :: "path \<Rightarrow> fsys \<Rightarrow> exn + fsys" where
  "mkdir_exist_ok d fs =
     (case lookup fs d of
        Some Dir \<Rightarrow> Inr fs
      | Some k \<Rightarrow> Inl FileExistsError
      | None \<Rightarrow>
          (case (lookup fs (parent d), resolve fs d) of
             (Some Dir, Some q) \<Rightarrow> Inr (fs @ [(q, Dir)])
           | (Some File, r) \<Rightarrow> Inl NotADirectoryError
           | (k, r) \<Rightarrow> Inl FileNotFoundError))"

definition rename :: "path \<Rightarrow> path \<Rightarrow> fsys \<Rightarrow> exn + fsys" where
  "rename src target fs =
     (case (resolve fs src, resolve fs target) of
        (Some s, Some t) \<Rightarrow>
          if always_dir s then Inl OSError
          else (case map_of fs s of
                  None \<Rightarrow> Inl FileNotFoundError
                | Some k \<Rightarrow>
                    if lookup fs (parent target) \<noteq> Some Dir then Inl FileNotFoundError
                    else if is_dir_at fs t \<or> take (length s) t = s then Inl OSError
                    else Inr (map (\<lambda>(p, k). if take (length s) p = s
                                              then (t @ drop (length s) p, k)
                                              else (p, k))
                               (filter (\<lambda>(p, k). p \<noteq> t) fs)))
      | (r, r') \<Rightarrow> Inl FileNotFoundError)"

definition unlink :: "path \<Rightarrow> fsys \<Rightarrow> exn + fsys" where
  "unlink p fs =
     (case (resolve fs p, lookup fs p) of
        (Some q, Some Dir) \<Rightarrow> Inl OSError
      | (Some q, Some k) \<Rightarrow> Inr (filter (\<lambda>(r, k). r \<noteq> q) fs)
      | (r, k) \<Rightarrow> Inl FileNotFoundError)"

text \<open>
  What the tool prints on the terminal, one constructor per message of the source.
  Writing to the terminal is taken to succeed. The log file and the progress bar are not
  modelled.
\<close>

datatype msg =
    DryRunMsg "string list"
  | FFmpegFailedMsg
  | ExecutionErrorMsg
  | SkippingMsg string
  | CompletedMsg nat nat
  | BatchReportMsg nat nat
  | ExtractedMsg path
  | ConvertedMsg path
  | InterruptedMsg

text \<open>
  The external binary is a parameter: given the command line and the disk it leaves a
  new disk and one of four outcomes of \<open>subprocess.run(cmd, stdout=PIPE, stderr=PIPE,
  text=True)\<close>: the process exits with a return code; it exits with a return code but
  its captured output is not valid text, so that decoding raises; it cannot be started;
  or SIGINT or SIGTERM arrives while it runs.
\<close>

datatype proc = Exited int | Undecodable int | NotStarted | Interrupted

type_synonym binary = "string list \<Rightarrow> fsys \<Rightarrow> proc \<times> fsys"

text \<open>
  The state the commands act on: the disk, the global list \<open>CREATED_FILES\<close>, the
  terminal output, and (a record kept for the proofs) the command lines handed to
  \<open>subprocess.run\<close>, started or not.
\<close>

record world =
  disk :: fsys
  created :: "path list"
  out :: "msg list"
  invoked :: "string list list"

text \<open>
  The signal handler of \<open>register_cleanup\<close>: it prints, unlinks every created file that
  exists (a failure is logged and passed over) and calls \<open>sys.exit(130)\<close>.
\<close>

fun cleanup_created :: "path list \<Rightarrow> fsys \<Rightarrow> fsys" where
  "cleanup_created [] fs = fs"
| "cleanup_created (f # rest) fs =
     (if exists fs f then
        (case unlink f fs of
           Inr fs1 \<Rightarrow> cleanup_created rest fs1
         | Inl exc \<Rightarrow> cleanup_created rest fs)
      else cleanup_created rest fs)"

definition handler :: "world \<Rightarrow> exn \<times> world" where
  "handler w =
     (SystemExit 130,
      w\<lparr>out := out w @ [InterruptedMsg], disk := cleanup_created (created w) (disk w)\<rparr>)"

definition backup_original :: "path \<Rightarrow> world \<Rightarrow> (exn + path) \<times> world" where
  "backup_original src w =
     (let backup_dir = joinpath (parent src) ''backup'' in
      case mkdir_exist_ok backup_dir (disk w) of
        Inl e \<Rightarrow> (Inl e, w)
      | Inr fs1 \<Rightarrow>
          (let target = backup_target fs1 backup_dir src (joinpath backup_dir (name src)) 1 in
           case rename src target fs1 of
             Inl e \<Rightarrow> (Inl e, w\<lparr>disk := fs1\<rparr>)
           | Inr fs2 \<Rightarrow> (Inr target, w\<lparr>disk := fs2\<rparr>)))"

text \<open>
  A computation returns its value or the exception it raised, with the state it left.
  \<open>try_except body handle\<close> is \<open>try: body except Exception as exc: handle\<close>: an
  exception that is not an \<open>Exception\<close> passes through.
\<close>

definition try_except ::
  "(exn + 'a) \<times> world \<Rightarrow> (exn \<Rightarrow> world \<Rightarrow> (exn + 'a) \<times> world) \<Rightarrow> (exn + 'a) \<times> world" where
  "try_except body handle =
     (case body of
        (Inl exc, w) \<Rightarrow> if is_Exception exc then handle exc w else (Inl exc, w)
      | (Inr v, w) \<Rightarrow> (Inr v, w))"

definition subprocess_run :: "binary \<Rightarrow> string list \<Rightarrow> world \<Rightarrow> (exn + int) \<times> world" where
  "subprocess_run bin cmd w =
     (case bin cmd (disk w) of
        (Exited returncode, fs) \<Rightarrow> (Inr returncode, w\<lparr>disk := fs, invoked := invoked w @ [cmd]\<rparr>)
      | (Undecodable returncode, fs) \<Rightarrow>
          (Inl UnicodeDecodeError, w\<lparr>disk := fs, invoked := invoked w @ [cmd]\<rparr>)
      | (NotStarted, fs) \<Rightarrow> (Inl OSError, w\<lparr>invoked := invoked w @ [cmd]\<rparr>)
      | (Interrupted, fs) \<Rightarrow>
          (case handler (w\<lparr>disk := fs, invoked := invoked w @ [cmd]\<rparr>) of
             (exc, w1) \<Rightarrow> (Inl exc, w1)))"

definition run_ffmpeg :: "binary \<Rightarrow> string list \<Rightarrow> bool \<Rightarrow> world \<Rightarrow> (exn + bool) \<times> world" where
  "run_ffmpeg bin cmd dry_run w =
     (if dry_run then (Inr True, w\<lparr>out := out w @ [DryRunMsg cmd]\<rparr>)
      else
        try_except
          (case subprocess_run bin cmd w of
             (Inl exc, w1) \<Rightarrow> (Inl exc, w1)
           | (Inr returncode, w1) \<Rightarrow>
               if returncode \<noteq> 0 then (Inr False, w1\<lparr>out := out w1 @ [FFmpegFailedMsg]\<rparr>)
               else (Inr True, w1))
          (\<lambda>exc w1. (Inr False, w1\<lparr>out := out w1 @ [ExecutionErrorMsg]\<rparr>)))"

text \<open>
  \<open>expand_inputs\<close>. \<open>glob.glob\<close> is a parameter, read on the current disk; its
  matches are taken as they come. \<open>dict.fromkeys\<close> keeps the first occurrence of every
  key, in insertion order; the keys are \<open>Path\<close> values.
\<close>

type_synonym globber = "fsys \<Rightarrow> string \<Rightarrow> string list"

fun collect_inputs :: "globber \<Rightarrow> fsys \<Rightarrow> string list \<Rightarrow> string list \<Rightarrow> string list" where
  "collect_inputs glob fs [] results = results"
| "collect_inputs glob fs (item # items) results =
     (let matches = glob fs item in
      if matches \<noteq> [] then collect_inputs glob fs items (results @ matches)
      else (let p = Path item in
            if exists fs p then collect_inputs glob fs items (results @ [str p])
            else collect_inputs glob fs items results))"

definition dict_fromkeys :: "'a list \<Rightarrow> 'a list" where
  "dict_fromkeys xs = foldl (\<lambda>keys x. if x \<in> set keys then keys else keys @ [x]) [] xs"

definition expand_inputs :: "globber \<Rightarrow> fsys \<Rightarrow> string list \<Rightarrow> path list" where
  "expand_inputs glob fs inputs = dict_fromkeys (map Path (collect_inputs glob fs inputs []))"

text \<open>
  A batch command threads the state and the counters \<open>ok\<close> and \<open>fail\<close> through
  its loop; an exception raised by the body of the loop ends the loop.
\<close>

type_synonym tally = "world \<times> nat \<times> nat"

fun for_each :: "('a \<Rightarrow> 's \<Rightarrow> (exn + unit) \<times> 's) \<Rightarrow> 'a list \<Rightarrow> 's \<Rightarrow> (exn + unit) \<times> 's" where
  "for_each body [] s = (Inr (), s)"
| "for_each body (x # xs) s =
     (case body x s of
        (Inl e, s') \<Rightarrow> (Inl e, s')
      | (Inr u, s') \<Rightarrow> for_each body xs s')"

text \<open>
  The tail shared by the four batch loops: \<open>if run_ffmpeg(cmd, dry_run):
  backup_original(src); CREATED_FILES.append(dst); ok += 1 else: fail += 1\<close>.
\<close>

definition run_and_backup ::
  "binary \<Rightarrow> string list \<Rightarrow> bool \<Rightarrow> path \<Rightarrow> path \<Rightarrow> tally \<Rightarrow> (exn + unit) \<times> tally" where
  "run_and_backup bin cmd dry_run src dst = (\<lambda>(w, ok, fail).
     case run_ffmpeg bin cmd dry_run w of
       (Inl e, w1) \<Rightarrow> (Inl e, (w1, ok, fail))
     | (Inr True, w1) \<Rightarrow>
         (case backup_original src w1 of
            (Inl e, w2) \<Rightarrow> (Inl e, (w2, ok, fail))
          | (Inr target, w2) \<Rightarrow> (Inr (), (w2\<lparr>created := created w2 @ [dst]\<rparr>, ok + 1, fail)))
     | (Inr False, w1) \<Rightarrow> (Inr (), (w1, ok, fail + 1)))"

definition IMAGE_FORMATS :: "string list" where
  "IMAGE_FORMATS = [''jpg'', ''jpeg'', ''png'', ''webp'', ''bmp'']"

definition VIDEO_FORMATS :: "string list" where
  "VIDEO_FORMATS = [''mp4'', ''mkv'', ''mov'', ''avi'', ''webm'']"

definition AUDIO_FORMATS :: "string list" where
  "AUDIO_FORMATS = [''mp3'', ''wav'', ''aac'', ''flac'', ''ogg'']"

text \<open>Video convert and video mute: the body of the loop, then the command.\<close>

definition video_convert_file ::
  "binary \<Rightarrow> path \<Rightarrow> bool \<Rightarrow> string \<Rightarrow> bool \<Rightarrow> bool \<Rightarrow> path \<Rightarrow> tally \<Rightarrow> (exn + unit) \<times> tally" where
  "video_convert_file bin ffmpeg dry_run format fast force src = (\<lambda>(w, ok, fail).
     case with_name src (stem src @ ''.'' @ format) of
       Inl e \<Rightarrow> (Inl e, (w, ok, fail))
     | Inr dst \<Rightarrow>
         if exists (disk w) dst \<and> \<not> force then
           (Inr (), (w\<lparr>out := out w @ [SkippingMsg (name dst)]\<rparr>, ok, fail + 1))
         else
           (let cmd =
              (if fast then [str ffmpeg, ''-i'', str src, ''-map'', ''0'', ''-c'', ''copy'', str dst]
               else [str ffmpeg, ''-i'', str src, ''-map'', ''0'', ''-c:v'', ''libx264'',
                     ''-c:a'', ''aac'', ''-movflags'', ''+faststart'', str dst])
            in run_and_backup bin cmd dry_run src dst (w, ok, fail)))"

text \<open>After the loop a batch command prints its summary, unless an exception escaped.\<close>

definition batch_report ::
  "(nat \<Rightarrow> nat \<Rightarrow> msg) \<Rightarrow> (exn + unit) \<times> tally \<Rightarrow> (exn + unit) \<times> world" where
  "batch_report summary r =
     (case r of
        (Inl e, (w, ok, fail)) \<Rightarrow> (Inl e, w)
      | (Inr u, (w, ok, fail)) \<Rightarrow> (Inr (), w\<lparr>out := out w @ [summary ok fail]\<rparr>))"

definition video_convert ::
  "binary \<Rightarrow> globber \<Rightarrow> path \<Rightarrow> bool \<Rightarrow> string list \<Rightarrow> string \<Rightarrow> bool \<Rightarrow> bool \<Rightarrow> world
     \<Rightarrow> (exn + unit) \<times> world" where
  "video_convert bin glob ffmpeg dry_run input format fast force w =
     (if lower format \<notin> set VIDEO_FORMATS then
        (Inl (ClickException ''Unsupported video format''), w)
      else
        (let files = expand_inputs glob (disk w) input in
         if files = [] then (Inl (ClickException ''No input files resolved''), w)
         else batch_report CompletedMsg
                (for_each (video_convert_file bin ffmpeg dry_run format fast force) files (w, 0, 0))))"

definition video_mute_file ::
  "binary \<Rightarrow> path \<Rightarrow> bool \<Rightarrow> bool \<Rightarrow> path \<Rightarrow> tally \<Rightarrow> (exn + unit) \<times> tally" where
  "video_mute_file bin ffmpeg dry_run force src = (\<lambda>(w, ok, fail).
     let dst = src in
     if exists (disk w) dst \<and> \<not> force then
       (Inr (), (w\<lparr>out := out w @ [SkippingMsg (name dst)]\<rparr>, ok, fail + 1))
     else
       (let cmd = [str ffmpeg, ''-i'', str src, ''-map'', ''0'', ''-an'',
                   ''-c:v'', ''copy'', ''-c:s'', ''copy'', str dst]
        in run_and_backup bin cmd dry_run src dst (w, ok, fail)))"

definition video_mute ::
  "binary \<Rightarrow> globber \<Rightarrow> path \<Rightarrow> bool \<Rightarrow> string list \<Rightarrow> bool \<Rightarrow> world \<Rightarrow> (exn + unit) \<times> world" where
  "video_mute bin glob ffmpeg dry_run input force w =
     (let files = expand_inputs glob (disk w) input in
      if files = [] then (Inl (ClickException ''No input files resolved''), w)
      else batch_report CompletedMsg
             (for_each (video_mute_file bin ffmpeg dry_run force) files (w, 0, 0)))"

text \<open>Image convert and image compress; only the latter wraps its body in \<open>try\<close>.\<close>

definition image_convert_file ::
  "binary \<Rightarrow> path \<Rightarrow> bool \<Rightarrow> string \<Rightarrow> bool \<Rightarrow> path \<Rightarrow> tally \<Rightarrow> (exn + unit) \<times> tally" where
  "image_convert_file bin ffmpeg dry_run format force src = (\<lambda>(w, ok, fail).
     case with_name src (stem src @ ''.'' @ format) of
       Inl e \<Rightarrow> (Inl e, (w, ok, fail))
     | Inr dst0 \<Rightarrow>
         (let dst = (if exists (disk w) dst0 \<and> \<not> force then suggest_path (disk w) dst0 else dst0);
              cmd = [str ffmpeg, ''-i'', str src, str dst]
          in run_and_backup bin cmd dry_run src dst (w, ok, fail)))"

definition image_convert ::
  "binary \<Rightarrow> globber \<Rightarrow> path \<Rightarrow> bool \<Rightarrow> string list \<Rightarrow> string \<Rightarrow> bool \<Rightarrow> world
     \<Rightarrow> (exn + unit) \<times> world" where
  "image_convert bin glob ffmpeg dry_run pattern format force w =
     (if lower format \<notin> set IMAGE_FORMATS then
        (Inl (ClickException ''Unsupported image format''), w)
      else
        (let files = expand_inputs glob (disk w) pattern in
         if files = [] then (Inl (ClickException ''No input files resolved''), w)
         else batch_report CompletedMsg
                (for_each (image_convert_file bin ffmpeg dry_run format force) files (w, 0, 0))))"

definition count_exception :: "(exn + unit) \<times> tally \<Rightarrow> (exn + unit) \<times> tally" where
  "count_exception r =
     (case r of
        (Inl exc, (w, ok, fail)) \<Rightarrow>
          if is_Exception exc then (Inr (), (w, ok, fail + 1)) else (Inl exc, (w, ok, fail))
      | (Inr u, t) \<Rightarrow> (Inr u, t))"

definition image_compress_file ::
  "binary \<Rightarrow> path \<Rightarrow> bool \<Rightarrow> int \<Rightarrow> bool \<Rightarrow> path \<Rightarrow> tally \<Rightarrow> (exn + unit) \<times> tally" where
  "image_compress_file bin ffmpeg dry_run quality force src = (\<lambda>(w, ok, fail).
     count_exception
       (let dst = (if exists (disk w) src \<and> \<not> force then suggest_path (disk w) src else src);
            cmd = compress_cmd ffmpeg src dst quality
        in run_and_backup bin cmd dry_run src dst (w, ok, fail)))"

definition image_compress ::
  "binary \<Rightarrow> globber \<Rightarrow> path \<Rightarrow> bool \<Rightarrow> string list \<Rightarrow> int \<Rightarrow> bool \<Rightarrow> world
     \<Rightarrow> (exn + unit) \<times> world" where
  "image_compress bin glob ffmpeg dry_run pattern quality force w =
     (let files = expand_inputs glob (disk w) pattern in
      if files = [] then (Inl (ClickException ''No input files resolved.''), w)
      else batch_report BatchReportMsg
             (for_each (image_compress_file bin ffmpeg dry_run quality force) files (w, 0, 0)))"

text \<open>
  The audio commands take one file, keep no counters and print no summary:
  \<open>if run_ffmpeg(cmd, dry_run): backup_original(src); CREATED_FILES.append(dst);
  click.secho(...)\<close>.
\<close>

definition single_file ::
  "binary \<Rightarrow> string list \<Rightarrow> bool \<Rightarrow> path \<Rightarrow> path \<Rightarrow> (path \<Rightarrow> msg) \<Rightarrow> world \<Rightarrow> (exn + unit) \<times> world" where
  "single_file bin cmd dry_run src dst done_msg w =
     (case run_ffmpeg bin cmd dry_run w of
        (Inl e, w1) \<Rightarrow> (Inl e, w1)
      | (Inr True, w1) \<Rightarrow>
          (case backup_original src w1 of
             (Inl e, w2) \<Rightarrow> (Inl e, w2)
           | (Inr target, w2) \<Rightarrow>
               (Inr (), w2\<lparr>created := created w2 @ [dst], out := out w2 @ [done_msg dst]\<rparr>))
      | (Inr False, w1) \<Rightarrow> (Inr (), w1))"

definition audio_extract ::
  "binary \<Rightarrow> path \<Rightarrow> bool \<Rightarrow> string \<Rightarrow> bool \<Rightarrow> world \<Rightarrow> (exn + unit) \<times> world" where
  "audio_extract bin ffmpeg dry_run input force w =
     (let src = Path input in
      if \<not> exists (disk w) src then (Inl (ClickException (''Input not found: '' @ str src)), w)
      else (case with_suffix src ''.mp3'' of
              Inl e \<Rightarrow> (Inl e, w)
            | Inr dst0 \<Rightarrow>
                (let dst = (if exists (disk w) dst0 \<and> \<not> force then suggest_path (disk w) dst0 else dst0);
                     cmd = [str ffmpeg, ''-i'', str src, ''-vn'', ''-ab'', ''192k'', ''-map'', ''a'', str dst]
                 in single_file bin cmd dry_run src dst ExtractedMsg w)))"

definition audio_convert ::
  "binary \<Rightarrow> path \<Rightarrow> bool \<Rightarrow> string \<Rightarrow> string \<Rightarrow> bool \<Rightarrow> world \<Rightarrow> (exn + unit) \<times> world" where
  "audio_convert bin ffmpeg dry_run input format force w =
     (if lower format \<notin> set AUDIO_FORMATS then
        (Inl (ClickException ''Unsupported audio format''), w)
      else
        (let src = Path input in
         if \<not> exists (disk w) src then (Inl (ClickException (''Input not found: '' @ str src)), w)
         else (case with_name src (stem src @ ''.'' @ format) of
                 Inl e \<Rightarrow> (Inl e, w)
               | Inr dst0 \<Rightarrow>
                   (let dst = (if exists (disk w) dst0 \<and> \<not> force then suggest_path (disk w) dst0 else dst0);
                        cmd = [str ffmpeg, ''-i'', str src, str dst]
                    in single_file bin cmd dry_run src dst ConvertedMsg w))))"


section \<open>Notions used to state the properties\<close>

text \<open>What one input pattern contributes, and the position of a first occurrence.\<close>

definition matched :: "globber \<Rightarrow> fsys \<Rightarrow> string \<Rightarrow> string list" where
  "matched glob fs item =
     (if glob fs item \<noteq> [] then glob fs item
      else if exists fs (Path item) then [str (Path item)]
      else [])"

definition first_index :: "'a list \<Rightarrow> 'a \<Rightarrow> nat" where
  "first_index xs x = length (takeWhile (\<lambda>y. y \<noteq> x) xs)"

text \<open>The paths that \<open>Path\<close> produces: a root or none, then plain components.\<close>

definition comp_ok :: "string \<Rightarrow> bool" where
  "comp_ok c = (c \<noteq> [] \<and> c \<noteq> ''.'' \<and> CHR ''/'' \<notin> set c)"

definition wf_path :: "path \<Rightarrow> bool" where
  "wf_path p =
     (case p of
        [] \<Rightarrow> True
      | r # rest \<Rightarrow> (r = ''/'' \<or> r = ''//'' \<or> comp_ok r) \<and> list_all comp_ok rest)"

text \<open>Two spellings of one file: both resolve, and to the same entry.\<close>

definition same_file :: "fsys \<Rightarrow> path \<Rightarrow> path \<Rightarrow> bool" where
  "same_file fs p q = (resolve fs p \<noteq> None \<and> resolve fs p = resolve fs q)"

text \<open>
  \<open>ffmpeg_called dry_run cmd w w'\<close>: between the states \<open>w\<close> and \<open>w'\<close> the command
  \<open>cmd\<close> was handed to \<open>run_ffmpeg\<close>, which printed it (dry run) or ran it.
\<close>

definition ffmpeg_called :: "bool \<Rightarrow> string list \<Rightarrow> world \<Rightarrow> world \<Rightarrow> bool" where
  "ffmpeg_called dry_run cmd w w' =
     (if dry_run then take (Suc (length (out w))) (out w') = out w @ [DryRunMsg cmd]
                      \<and> invoked w' = invoked w
      else invoked w' = invoked w @ [cmd])"

text \<open>
  Concrete inputs for the examples. \<open>plain_glob\<close> is \<open>glob.glob\<close> on a pattern without
  wildcards: the pattern itself when something is listed under it (a directory, when the
  pattern ends with a slash). \<open>demo_glob\<close> also knows the pattern \<open>*.mkv\<close> in a
  directory of three names.
\<close>

definition plain_glob :: globber where
  "plain_glob fs pat =
     (if pat = [] then []
      else if last pat = CHR ''/'' then (if lookup fs (Path pat) = Some Dir then [pat] else [])
      else if lexists fs (Path pat) then [pat]
      else [])"

definition demo_glob :: globber where
  "demo_glob fs pat =
     (if pat = ''*.mkv'' then filter (\<lambda>m. lexists fs (Path m)) [''a.mkv'', ''b.mkv'', ''gone.mkv'']
      else plain_glob fs pat)"

text \<open>
  Binaries: one that always fails, one that writes its last argument and exits with 0,
  one that does the same but prints bytes that are not text, and one that is interrupted.
\<close>

definition failing_bin :: binary where
  "failing_bin cmd fs = (Exited 1, fs)"

definition writing_bin :: binary where
  "writing_bin cmd fs =
     (Exited 0, filter (\<lambda>(p, k). p \<noteq> Path (last cmd)) fs @ [(Path (last cmd), File)])"

definition garbled_bin :: binary where
  "garbled_bin cmd fs =
     (Undecodable 0, filter (\<lambda>(p, k). p \<noteq> Path (last cmd)) fs @ [(Path (last cmd), File)])"

definition interrupted_bin :: binary where
  "interrupted_bin cmd fs = (Interrupted, fs)"

text \<open>
  Disks: two videos and a converted file; a video and a dangling link; a file beside a
  directory; a directory whose \<open>backup\<close> entry is a regular file; a single image.
\<close>

definition demo_disk :: fsys where
  "demo_disk = [([''a.mkv''], File), ([''b.mkv''], File), ([''b.mp4''], File)]"

definition demo_world :: world where
  "demo_world = \<lparr>disk = demo_disk, created = [], out = [], invoked = []\<rparr>"

definition link_world :: world where
  "link_world =
     \<lparr>disk = [([''a.mkv''], File), ([''gone.mkv''], DanglingLink)],
      created = [], out = [], invoked = []\<rparr>"

definition alias_world :: world where
  "alias_world =
     \<lparr>disk = [([''sub''], Dir), ([''real.mp4''], File)], created = [], out = [], invoked = []\<rparr>"

definition blocked_world :: world where
  "blocked_world =
     \<lparr>disk = [([''a.mkv''], File), ([''b.mkv''], File), ([''backup''], File)],
      created = [], out = [], invoked = []\<rparr>"

definition photo_world :: world where
  "photo_world = \<lparr>disk = [([''a.png''], File)], created = [], out = [], invoked = []\<rparr>"

section \<open>Facts about the quality mapping\<close>

lemma round_third: "round (real_of_int n / 3) = (2 * n + 3) div 6"
proof -
  have "real_of_int n / 3 + 1 / 2 = real_of_int (2 * n + 3) / real_of_int 6"
    by simp
  then show ?thesis
    unfolding round_def by (simp only: floor_divide_of_int_eq)
qed

lemma round_third_floor:
  "(2 * n + 3) div 6 = n div 3 + (if n mod 3 = 2 then 1 else 0)" for n :: int
  by presburger

lemma sdiv3_nonneg: "0 \<le> n \<Longrightarrow> n sdiv 3 = n div 3" for n :: int
  by (simp add: signed_divide_int_def sgn_if)

lemma sdiv3_mono: "a \<le> b \<Longrightarrow> a sdiv 3 \<le> b sdiv (3::int)"
proof -
  assume ab: "a \<le> b"
  consider "0 \<le> a" | "a < 0" "0 \<le> b" | "b < 0"
    using ab by linarith
  then show ?thesis
  proof cases
    case 1
    then show ?thesis
      using ab by (simp add: sdiv3_nonneg zdiv_mono1)
  next
    case 2
    have "0 \<le> (- a) div 3"
      using 2 by (simp add: pos_imp_zdiv_nonneg_iff)
    moreover have "0 \<le> b div 3"
      using 2 by (simp add: pos_imp_zdiv_nonneg_iff)
    ultimately show ?thesis
      using 2 by (simp add: signed_divide_int_def sgn_if)
  next
    case 3
    then have "(- b) div 3 \<le> (- a) div 3"
      using ab by (simp add: zdiv_mono1)
    then show ?thesis
      using 3 ab by (simp add: signed_divide_int_def sgn_if)
  qed
qed

lemma compress_quality_floor:
  "0 \<le> q \<Longrightarrow> q \<le> 100 \<Longrightarrow> compress_quality q = max 2 (min 31 ((100 - q) div 3))"
  by (simp add: compress_quality_def sdiv3_nonneg)

lemma spec_quality_differs:
  assumes "0 \<le> q" "q \<le> 100"
  shows "(spec_quality q \<noteq> compress_quality q) = (q mod 3 = 2 \<and> 8 \<le> q \<and> q \<le> 92)"
proof -
  define n where "n = 100 - q"
  have r: "round ((100 - real_of_int q) / 3) = n div 3 + (if n mod 3 = 2 then 1 else 0)"
    using round_third[of n] round_third_floor[of n] by (simp add: n_def)
  have c: "compress_quality q = max 2 (min 31 (n div 3))"
    using assms by (simp add: compress_quality_floor n_def)
  have m: "(n mod 3 = 2) = (q mod 3 = 2)"
    unfolding n_def by presburger
  have b1: "(n div 3 \<le> 30) = (8 \<le> q)"
    unfolding n_def by presburger
  have b2: "(2 \<le> n div 3) = (q \<le> 94)"
    unfolding n_def by presburger
  have b3: "q mod 3 = 2 \<Longrightarrow> q \<le> 94 \<Longrightarrow> q \<le> 92"
    by presburger
  show ?thesis
    unfolding spec_quality_def r c using m b1 b2 b3 by (auto simp: max_def min_def)
qed

lemma str_int_10: "str_int 10 = ''10''"
  by (simp add: str_int_def str_nat.simps digit_char_def)

lemma str_int_30: "str_int 30 = ''30''"
  by (simp add: str_int_def str_nat.simps digit_char_def)

lemma str_int_31: "str_int 31 = ''31''"
  by (simp add: str_int_def str_nat.simps digit_char_def)

lemma suffix_photo_jpg: "suffix [''photo.jpg''] = ''.jpg''"
  by (simp add: suffix_def name_def is_root_def)

lemma lower_jpg: "lower ''.jpg'' = ''.jpg''"
  by (simp add: lower_def lower_char_def)


text \<open>
  C1. For a quality in [0, 100] and a source that is not a PNG, the encoder quality
  argument placed in the command is \<open>clamp(2, 31, floor((100 - quality) / 3))\<close>: the
  quotient is truncated, not rounded. Quality 70 yields the argument 10. The truncated
  value is one less than the rounded one exactly for the qualities 8, 11, ..., 92.
\<close>

theorem C1_quality_argument_truncated:
  assumes "0 \<le> q" and "q \<le> 100" and "lower (suffix src) \<noteq> ''.png''"
  shows "compress_cmd ffmpeg src dst q =
           [str ffmpeg, ''-i'', str src, ''-q:v'',
            str_int (max 2 (min 31 ((100 - q) div 3))), str dst]
         \<and> compress_cmd ffmpeg src dst 70 =
           [str ffmpeg, ''-i'', str src, ''-q:v'', ''10'', str dst]
         \<and> (spec_quality q \<noteq> compress_quality q) = (q mod 3 = 2 \<and> 8 \<le> q \<and> q \<le> 92)"
proof -
  have a: "compress_cmd ffmpeg src dst q =
           [str ffmpeg, ''-i'', str src, ''-q:v'',
            str_int (max 2 (min 31 ((100 - q) div 3))), str dst]"
    using assms by (simp add: compress_cmd_def compress_quality_floor)
  have "compress_quality 70 = 10"
    by (simp add: compress_quality_def signed_divide_int_def)
  then have b: "compress_cmd ffmpeg src dst 70 =
      [str ffmpeg, ''-i'', str src, ''-q:v'', ''10'', str dst]"
    using assms(3) by (simp add: compress_cmd_def str_int_10)
  have c: "(spec_quality q \<noteq> compress_quality q) = (q mod 3 = 2 \<and> 8 \<le> q \<and> q \<le> 92)"
    using assms(1,2) by (rule spec_quality_differs)
  from a b c show ?thesis
    by blast
qed

theorem C1_quality_argument_witness:
  "compress_cmd [''ffmpeg''] [''photo.jpg''] [''photo_1.jpg''] 70
     = [''ffmpeg'', ''-i'', ''photo.jpg'', ''-q:v'', ''10'', ''photo_1.jpg'']"
proof -
  have "lower (suffix [''photo.jpg'']) \<noteq> ''.png''"
    by (simp add: suffix_photo_jpg lower_jpg)
  from C1_quality_argument_truncated[OF _ _ this, of 70 "[''ffmpeg'']" "[''photo_1.jpg'']"]
  show ?thesis
    by (simp add: str_def str_int_10)
qed

theorem C1_rounding_counterexample:
  "compress_cmd [''ffmpeg''] [''photo.jpg''] [''photo_1.jpg''] 8 ! 4 = ''30''
   \<and> str_int (max 2 (min 31 (round ((100 - real_of_int 8) / 3)))) = ''31''"
proof -
  have "compress_quality 8 = 30"
    by (simp add: compress_quality_def signed_divide_int_def)
  then have a: "compress_cmd [''ffmpeg''] [''photo.jpg''] [''photo_1.jpg''] 8 ! 4 = ''30''"
    by (simp add: compress_cmd_def suffix_photo_jpg lower_jpg str_int_30)
  have "round ((100 - real_of_int 8) / 3) = 31"
    using round_third[of 92] by simp
  then have "str_int (max 2 (min 31 (round ((100 - real_of_int 8) / 3)))) = ''31''"
    by (simp add: str_int_31)
  with a show ?thesis
    by simp
qed


text \<open>
  C8. For quality inputs in [0, 100] the derived encoder quality lies in [2, 31], and it
  does not increase when the requested quality increases; the two ends of the range are
  reached (31 at quality 0, 2 at quality 100).
\<close>

theorem C8_quality_range_and_monotone:
  assumes "0 \<le> q1" and "q1 \<le> q2" and "q2 \<le> 100"
  shows "2 \<le> compress_quality q2 \<and> compress_quality q2 \<le> compress_quality q1
         \<and> compress_quality q1 \<le> 31
         \<and> compress_quality 0 = 31 \<and> compress_quality 100 = 2"
proof -
  have "(100 - q2) sdiv 3 \<le> (100 - q1) sdiv 3"
    using assms(2) by (intro sdiv3_mono) simp
  then have "compress_quality q2 \<le> compress_quality q1"
    unfolding compress_quality_def by (simp add: max_def min_def)
  moreover have "2 \<le> compress_quality q2" and "compress_quality q1 \<le> 31"
    by (simp_all add: compress_quality_def)
  moreover have "compress_quality 0 = 31" and "compress_quality 100 = 2"
    by (simp_all add: compress_quality_def signed_divide_int_def)
  ultimately show ?thesis
    by simp
qed

theorem C8_quality_range_witness:
  "compress_quality 70 \<le> compress_quality 40 \<and> compress_quality 40 = 20
   \<and> compress_quality 70 = 10"
proof -
  have "compress_quality 40 = 20" and "compress_quality 70 = 10"
    by (simp_all add: compress_quality_def signed_divide_int_def)
  with C8_quality_range_and_monotone[of 40 70] show ?thesis
    by simp
qed

section \<open>The naming policy and the executor\<close>

lemma suggest_path_loop_first_free:
  "\<exists>k\<ge>idx. suggest_path_loop fs dir base suf idx = numbered dir base k suf
      \<and> \<not> exists fs (numbered dir base k suf)
      \<and> (\<forall>j. idx \<le> j \<and> j < k \<longrightarrow> exists fs (numbered dir base j suf))"
proof (induction fs dir base suf idx rule: suggest_path_loop.induct)
  case (1 fs dir base suf idx)
  show ?case
  proof (cases "exists fs (numbered dir base idx suf)")
    case False
    then have "suggest_path_loop fs dir base suf idx = numbered dir base idx suf"
      by (subst suggest_path_loop.simps) simp
    with False show ?thesis
      by (intro exI[of _ idx]) auto
  next
    case True
    then have step: "suggest_path_loop fs dir base suf idx = suggest_path_loop fs dir base suf (idx + 1)"
      by (subst suggest_path_loop.simps) simp
    from 1[OF refl] True obtain k where k: "idx + 1 \<le> k"
      "suggest_path_loop fs dir base suf (idx + 1) = numbered dir base k suf"
      "\<not> exists fs (numbered dir base k suf)"
      "\<forall>j. idx + 1 \<le> j \<and> j < k \<longrightarrow> exists fs (numbered dir base j suf)"
      by auto
    have "\<forall>j. idx \<le> j \<and> j < k \<longrightarrow> exists fs (numbered dir base j suf)"
    proof (intro allI impI)
      fix j assume "idx \<le> j \<and> j < k"
      then consider "j = idx" | "idx + 1 \<le> j \<and> j < k"
        by linarith
      then show "exists fs (numbered dir base j suf)"
        using True k(4) by cases auto
    qed
    with k step show ?thesis
      by (intro exI[of _ k]) simp
  qed
qed

lemma stem_suffix_name: "stem p @ suffix p = name p"
  by (simp add: stem_def suffix_def Let_def split: option.splits)

lemma numbered_neq_self: "numbered (parent p) (stem p) k (suffix p) \<noteq> p"
proof (cases "p = [] \<or> is_root p")
  case True
  then show ?thesis
    by (simp add: numbered_snoc parent_def)
next
  case False
  then have p: "p = butlast p @ [name p]"
    by (simp add: name_def)
  have "length (stem p @ ''_'' @ str_nat k @ suffix p) \<noteq> length (name p)"
    by (simp flip: stem_suffix_name)
  then have "stem p @ ''_'' @ str_nat k @ suffix p \<noteq> name p"
    by metis
  then have "butlast p @ [stem p @ ''_'' @ str_nat k @ suffix p] \<noteq> butlast p @ [name p]"
    by simp
  with p False show ?thesis
    by (simp add: numbered_snoc parent_def)
qed

text \<open>
  C4. \<open>suggest_path\<close> does not look at the path it is given: for every path, existing or
  not, it returns the first of the candidates \<open>stem_1\<close>, \<open>stem_2\<close>, ... (number before
  the extension, same directory) that does not exist. So its result never exists and is
  never the given path. Returning a free path unchanged is left to the callers, which
  call it only under \<open>dst.exists() and not force\<close>.
\<close>

theorem C4_suggest_path_first_free:
  "\<exists>k\<ge>1. suggest_path fs p = joinpath (parent p) (stem p @ ''_'' @ str_nat k @ suffix p)
      \<and> (\<forall>j. 1 \<le> j \<and> j < k \<longrightarrow>
            exists fs (joinpath (parent p) (stem p @ ''_'' @ str_nat j @ suffix p)))
      \<and> \<not> exists fs (suggest_path fs p)
      \<and> suggest_path fs p \<noteq> p"
proof -
  obtain k where k: "1 \<le> k"
      "suggest_path fs p = numbered (parent p) (stem p) k (suffix p)"
      "\<not> exists fs (numbered (parent p) (stem p) k (suffix p))"
      "\<forall>j. 1 \<le> j \<and> j < k \<longrightarrow> exists fs (numbered (parent p) (stem p) j (suffix p))"
    using suggest_path_loop_first_free[of 1 fs "parent p" "stem p" "suffix p"]
    unfolding suggest_path_def by blast
  have "suggest_path fs p \<noteq> p"
    using k(2) numbered_neq_self by simp
  with k show ?thesis
    unfolding numbered_def by (intro exI[of _ k]) simp
qed

theorem C4_suggest_path_witness:
  "suggest_path [([''clip.mp4''], File), ([''clip_1.mp4''], File)] [''clip.mp4''] = [''clip_2.mp4'']
   \<and> \<not> exists [([''clip.mp4''], File), ([''clip_1.mp4''], File)] [''clip_2.mp4'']"
proof -
  have "suggest_path [([''clip.mp4''], File), ([''clip_1.mp4''], File)] [''clip.mp4''] = [''clip_2.mp4'']"
    by code_simp
  with C4_suggest_path_first_free[of "[([''clip.mp4''], File), ([''clip_1.mp4''], File)]" "[''clip.mp4'']"]
  show ?thesis
    by auto
qed

theorem C4_unchanged_counterexample:
  "\<not> exists [] [''clip.mp4''] \<and> suggest_path [] [''clip.mp4''] = [''clip_1.mp4'']"
  by code_simp

text \<open>
  C9. In a dry run \<open>run_ffmpeg\<close> only prints the command: nothing is run, the disk is
  unchanged and the result is \<open>True\<close>. Otherwise it returns a boolean unless a signal
  interrupts the process: then the \<open>SystemExit(130)\<close> of the tool's own handler, which
  is no \<open>Exception\<close>, passes through. The result is \<open>False\<close> exactly when the process
  exits with a non-zero code or \<open>subprocess.run\<close> raises an \<open>Exception\<close>: the process
  cannot be started, or its captured output cannot be decoded, whatever its exit code.
  The result is \<open>True\<close> exactly when the process exits with 0 and its output decodes.
\<close>

theorem C9_run_ffmpeg_outcomes:
  "(dry_run \<longrightarrow> run_ffmpeg bin cmd dry_run w = (Inr True, w\<lparr>out := out w @ [DryRunMsg cmd]\<rparr>))
   \<and> (\<not> dry_run \<longrightarrow>
        (fst (run_ffmpeg bin cmd dry_run w) = Inl (SystemExit 130))
          = (fst (bin cmd (disk w)) = Interrupted)
      \<and> (fst (bin cmd (disk w)) \<noteq> Interrupted \<longrightarrow> (\<exists>b. fst (run_ffmpeg bin cmd dry_run w) = Inr b))
      \<and> (fst (run_ffmpeg bin cmd dry_run w) = Inr False)
          = (fst (bin cmd (disk w)) = NotStarted
             \<or> (\<exists>rc. fst (bin cmd (disk w)) = Undecodable rc)
             \<or> (\<exists>rc. rc \<noteq> 0 \<and> fst (bin cmd (disk w)) = Exited rc))
      \<and> (fst (run_ffmpeg bin cmd dry_run w) = Inr True) = (fst (bin cmd (disk w)) = Exited 0))"
  by (cases "bin cmd (disk w)"; cases "fst (bin cmd (disk w))")
     (auto simp: run_ffmpeg_def try_except_def subprocess_run_def handler_def is_Exception_def)

theorem C9_run_ffmpeg_witness:
  "run_ffmpeg failing_bin [''ffmpeg'', ''-i'', ''a.mkv'', ''a.mp4''] True demo_world
     = (Inr True, demo_world\<lparr>out := [DryRunMsg [''ffmpeg'', ''-i'', ''a.mkv'', ''a.mp4'']]\<rparr>)
   \<and> fst (run_ffmpeg failing_bin [''ffmpeg'', ''-i'', ''a.mkv'', ''a.mp4''] False demo_world) = Inr False
   \<and> fst (run_ffmpeg writing_bin [''ffmpeg'', ''-i'', ''a.mkv'', ''a.mp4''] False demo_world) = Inr True"
proof -
  have o: "out demo_world = []"
    by (simp add: demo_world_def)
  from C9_run_ffmpeg_outcomes[of True failing_bin "[''ffmpeg'', ''-i'', ''a.mkv'', ''a.mp4'']" demo_world]
    C9_run_ffmpeg_outcomes[of False failing_bin "[''ffmpeg'', ''-i'', ''a.mkv'', ''a.mp4'']" demo_world]
    C9_run_ffmpeg_outcomes[of False writing_bin "[''ffmpeg'', ''-i'', ''a.mkv'', ''a.mp4'']" demo_world]
  show ?thesis
    by (simp add: o failing_bin_def writing_bin_def)
qed

theorem C9_exit_zero_failure_counterexample:
  "fst (garbled_bin [''ffmpeg'', ''-i'', ''a.mkv'', ''a.mp4''] (disk demo_world)) = Undecodable 0
   \<and> fst (run_ffmpeg garbled_bin [''ffmpeg'', ''-i'', ''a.mkv'', ''a.mp4''] False demo_world) = Inr False
   \<and> fst (run_ffmpeg interrupted_bin [''ffmpeg'', ''-i'', ''a.mkv'', ''a.mp4''] False demo_world)
       = Inl (SystemExit 130)"
  by (simp add: run_ffmpeg_def try_except_def subprocess_run_def handler_def is_Exception_def
      garbled_bin_def interrupted_bin_def)

section \<open>Input expansion\<close>

lemma collect_inputs_concat:
  "collect_inputs glob fs items results = results @ concat (map (matched glob fs) items)"
  by (induction items arbitrary: results) (simp_all add: matched_def Let_def)

lemma dict_fromkeys_snoc:
  "dict_fromkeys (xs @ [x]) =
     (if x \<in> set (dict_fromkeys xs) then dict_fromkeys xs else dict_fromkeys xs @ [x])"
  by (simp add: dict_fromkeys_def)

lemma dict_fromkeys_Nil: "dict_fromkeys [] = []"
  by (simp add: dict_fromkeys_def)

lemma set_dict_fromkeys: "set (dict_fromkeys xs) = set xs"
  by (induction xs rule: rev_induct) (auto simp: dict_fromkeys_snoc dict_fromkeys_Nil)

lemma distinct_dict_fromkeys: "distinct (dict_fromkeys xs)"
  by (induction xs rule: rev_induct) (auto simp: dict_fromkeys_snoc dict_fromkeys_Nil)

lemma first_index_append_in: "a \<in> set xs \<Longrightarrow> first_index (xs @ ys) a = first_index xs a"
  by (simp add: first_index_def takeWhile_append1)

lemma first_index_less_length: "a \<in> set xs \<Longrightarrow> first_index xs a < length xs"
  by (induction xs) (auto simp: first_index_def)

lemma first_index_fresh: "x \<notin> set xs \<Longrightarrow> first_index (xs @ [x]) x = length xs"
  by (induction xs) (auto simp: first_index_def)

lemma dict_fromkeys_first_order:
  "sorted_wrt (\<lambda>a b. first_index xs a < first_index xs b) (dict_fromkeys xs)"
proof (induction xs rule: rev_induct)
  case Nil
  show ?case
    by (simp add: dict_fromkeys_Nil)
next
  case (snoc x xs)
  have keep: "sorted_wrt (\<lambda>a b. first_index (xs @ [x]) a < first_index (xs @ [x]) b) (dict_fromkeys xs)"
    using snoc
    by (rule sorted_wrt_mono_rel[rotated]) (simp add: set_dict_fromkeys first_index_append_in)
  show ?case
  proof (cases "x \<in> set xs")
    case True
    then show ?thesis
      using keep by (simp add: dict_fromkeys_snoc set_dict_fromkeys)
  next
    case False
    have "\<forall>a\<in>set (dict_fromkeys xs). first_index (xs @ [x]) a < first_index (xs @ [x]) x"
      using False
      by (simp add: set_dict_fromkeys first_index_append_in first_index_fresh first_index_less_length)
    then show ?thesis
      using keep False by (simp add: dict_fromkeys_snoc set_dict_fromkeys sorted_wrt_append)
  qed
qed

lemma split_sep_not_Nil: "split_sep c s \<noteq> []"
  by (induction s) (auto split: list.splits)

lemma split_sep_plain: "c \<notin> set w \<Longrightarrow> split_sep c w = [w]"
  by (induction w) auto

lemma split_sep_append: "c \<notin> set w \<Longrightarrow> split_sep c (w @ c # rest) = w # split_sep c rest"
  by (induction w) auto

lemma split_sep_join:
  "ws \<noteq> [] \<Longrightarrow> \<forall>w\<in>set ws. c \<notin> set w \<Longrightarrow> split_sep c (join c ws) = ws"
  by (induction c ws rule: join.induct) (simp_all add: split_sep_plain split_sep_append)

lemma split_sep_free: "w \<in> set (split_sep c s) \<Longrightarrow> c \<notin> set w"
proof (induction s arbitrary: w)
  case Nil
  then show ?case
    by simp
next
  case (Cons x s)
  then show ?case
    using split_sep_not_Nil[of c s] by (cases "split_sep c s") (auto split: if_splits)
qed


lemma comp_ok_split:
  "list_all comp_ok (filter (\<lambda>c. c \<noteq> [] \<and> c \<noteq> ''.'') (split_sep CHR ''/'' s))"
  by (auto simp: list_all_iff comp_ok_def dest: split_sep_free)

lemma root_of_cases: "root_of s = [] \<or> root_of s = ''/'' \<or> root_of s = ''//''"
  by (simp add: root_of_def)

lemma wf_path_Path: "wf_path (Path s)"
proof (cases "root_of s = []")
  case True
  then show ?thesis
    using comp_ok_split[of s]
    by (cases "filter (\<lambda>c. c \<noteq> [] \<and> c \<noteq> ''.'') (split_sep CHR ''/'' s)")
       (simp_all add: Path_def wf_path_def)
next
  case False
  then show ?thesis
    using comp_ok_split[of s] root_of_cases[of s] by (auto simp: Path_def wf_path_def)
qed

lemma join_comps_hd:
  "list_all comp_ok ws \<Longrightarrow> ws \<noteq> [] \<Longrightarrow> \<exists>x rest. join CHR ''/'' ws = x # rest \<and> x \<noteq> CHR ''/''"
proof (induction "CHR ''/''" ws rule: join.induct)
  case 1
  then show ?case by simp
next
  case (2 w)
  then show ?case by (cases w) (auto simp: comp_ok_def)
next
  case (3 w v ws)
  then show ?case by (cases w) (auto simp: comp_ok_def)
qed

lemma split_join_comps:
  "list_all comp_ok ws \<Longrightarrow>
     filter (\<lambda>c. c \<noteq> [] \<and> c \<noteq> ''.'') (split_sep CHR ''/'' (join CHR ''/'' ws)) = ws"
proof (cases "ws = []")
  case True
  then show ?thesis by simp
next
  case False
  assume ok: "list_all comp_ok ws"
  then have "split_sep CHR ''/'' (join CHR ''/'' ws) = ws"
    using False by (intro split_sep_join) (auto simp: list_all_iff comp_ok_def)
  moreover have "filter (\<lambda>c. c \<noteq> [] \<and> c \<noteq> ''.'') ws = ws"
    using ok by (auto simp: list_all_iff comp_ok_def intro: filter_True)
  ultimately show ?thesis by simp
qed

lemma root_of_relative: "s = x # rest \<Longrightarrow> x \<noteq> CHR ''/'' \<Longrightarrow> root_of s = []"
  by (simp add: root_of_def)

lemma Path_str: "wf_path p \<Longrightarrow> Path (str p) = p"
proof (cases p)
  case Nil
  then show ?thesis
    by (simp add: str_def Path_def root_of_def)
next
  case (Cons r rest)
  assume wf: "wf_path p"
  then have rest: "list_all comp_ok rest"
    using Cons by (simp add: wf_path_def)
  consider (root1) "r = ''/''" | (root2) "r = ''//''" | (rel) "r \<noteq> ''/''" "r \<noteq> ''//''" "comp_ok r"
    using wf Cons by (auto simp: wf_path_def)
  then show ?thesis
  proof cases
    case root1
    show ?thesis
    proof (cases "rest = []")
      case True
      then show ?thesis
        using root1 Cons by (simp add: str_def Path_def root_of_def)
    next
      case False
      then obtain x xs where j: "join CHR ''/'' rest = x # xs" "x \<noteq> CHR ''/''"
        using join_comps_hd[OF rest] by blast
      have "root_of (''/'' @ join CHR ''/'' rest) = ''/''"
        using j by (simp add: root_of_def)
      moreover have "filter (\<lambda>c. c \<noteq> [] \<and> c \<noteq> ''.'') (split_sep CHR ''/'' (''/'' @ join CHR ''/'' rest)) = rest"
        using split_join_comps[OF rest] by simp
      ultimately show ?thesis
        using root1 Cons by (simp add: str_def Path_def)
    qed
  next
    case root2
    show ?thesis
    proof (cases "rest = []")
      case True
      then show ?thesis
        using root2 Cons by (simp add: str_def Path_def root_of_def)
    next
      case False
      then obtain x xs where j: "join CHR ''/'' rest = x # xs" "x \<noteq> CHR ''/''"
        using join_comps_hd[OF rest] by blast
      have "root_of (''//'' @ join CHR ''/'' rest) = ''//''"
        using j by (simp add: root_of_def)
      moreover have "filter (\<lambda>c. c \<noteq> [] \<and> c \<noteq> ''.'') (split_sep CHR ''/'' (''//'' @ join CHR ''/'' rest)) = rest"
        using split_join_comps[OF rest] by simp
      ultimately show ?thesis
        using root2 Cons by (simp add: str_def Path_def)
    qed
  next
    case rel
    then have all: "list_all comp_ok p"
      using rest Cons by simp
    obtain x xs where j: "join CHR ''/'' p = x # xs" "x \<noteq> CHR ''/''"
      using join_comps_hd[OF all] Cons by blast
    have "root_of (join CHR ''/'' p) = []"
      using j by (rule root_of_relative)
    then show ?thesis
      using rel Cons split_join_comps[OF all] by (simp add: str_def Path_def)
  qed
qed

lemma Path_str_Path: "Path (str (Path s)) = Path s"
  by (rule Path_str) (rule wf_path_Path)

lemma expand_inputs_matched:
  "expand_inputs glob fs inputs = dict_fromkeys (map Path (concat (map (matched glob fs) inputs)))"
  by (simp add: expand_inputs_def collect_inputs_concat)

lemma set_matched:
  "Path ` set (matched glob fs item) =
     (if glob fs item \<noteq> [] then Path ` set (glob fs item)
      else if exists fs (Path item) then {Path item} else {})"
  by (simp add: matched_def Path_str_Path)

lemma set_expand_inputs:
  "set (expand_inputs glob fs inputs) =
     (\<Union>item\<in>set inputs.
        if glob fs item \<noteq> [] then Path ` set (glob fs item)
        else if exists fs (Path item) then {Path item} else {})"
proof -
  have "set (expand_inputs glob fs inputs) = (\<Union>item\<in>set inputs. Path ` set (matched glob fs item))"
    by (auto simp: expand_inputs_matched set_dict_fromkeys)
  then show ?thesis
    by (simp only: set_matched)
qed


text \<open>
  C6. \<open>expand_inputs\<close> collects, for each pattern, its glob matches when there are any,
  else the pattern itself when it is an existing path, else nothing. The result holds each
  \<open>Path\<close> value once, in the order of first occurrence among the matches. It compares
  spellings, not files: two spellings of one file are both kept, and a glob match is kept
  whether or not it exists. The four commands that expand their inputs raise the fatal
  "No input files resolved" on an empty result, leaving the state unchanged.
\<close>

theorem C6_expand_inputs:
  "set (expand_inputs glob (disk w) inputs) =
           (\<Union>item\<in>set inputs.
              if glob (disk w) item \<noteq> [] then Path ` set (glob (disk w) item)
              else if exists (disk w) (Path item) then {Path item} else {})
       \<and> distinct (expand_inputs glob (disk w) inputs)
       \<and> expand_inputs glob (disk w) inputs
            = dict_fromkeys (map Path (concat (map (matched glob (disk w)) inputs)))
       \<and> sorted_wrt
            (\<lambda>a b. first_index (map Path (concat (map (matched glob (disk w)) inputs))) a
                   < first_index (map Path (concat (map (matched glob (disk w)) inputs))) b)
            (expand_inputs glob (disk w) inputs)
       \<and> (expand_inputs glob (disk w) inputs = [] \<longrightarrow>
            video_mute bin glob ffmpeg dry_run inputs force w
              = (Inl (ClickException ''No input files resolved''), w)
          \<and> image_compress bin glob ffmpeg dry_run inputs quality force w
              = (Inl (ClickException ''No input files resolved.''), w)
          \<and> (lower vformat \<in> set VIDEO_FORMATS \<longrightarrow>
               video_convert bin glob ffmpeg dry_run inputs vformat fast force w
                 = (Inl (ClickException ''No input files resolved''), w))
          \<and> (lower iformat \<in> set IMAGE_FORMATS \<longrightarrow>
               image_convert bin glob ffmpeg dry_run inputs iformat force w
                 = (Inl (ClickException ''No input files resolved''), w)))"
proof -
  have "distinct (expand_inputs glob (disk w) inputs)"
    by (simp add: expand_inputs_def distinct_dict_fromkeys)
  moreover have "sorted_wrt
            (\<lambda>a b. first_index (map Path (concat (map (matched glob (disk w)) inputs))) a
                   < first_index (map Path (concat (map (matched glob (disk w)) inputs))) b)
            (expand_inputs glob (disk w) inputs)"
    unfolding expand_inputs_matched by (rule dict_fromkeys_first_order)
  moreover have "expand_inputs glob (disk w) inputs = [] \<longrightarrow>
            video_mute bin glob ffmpeg dry_run inputs force w
              = (Inl (ClickException ''No input files resolved''), w)
          \<and> image_compress bin glob ffmpeg dry_run inputs quality force w
              = (Inl (ClickException ''No input files resolved.''), w)
          \<and> (lower vformat \<in> set VIDEO_FORMATS \<longrightarrow>
               video_convert bin glob ffmpeg dry_run inputs vformat fast force w
                 = (Inl (ClickException ''No input files resolved''), w))
          \<and> (lower iformat \<in> set IMAGE_FORMATS \<longrightarrow>
               image_convert bin glob ffmpeg dry_run inputs iformat force w
                 = (Inl (ClickException ''No input files resolved''), w))"
    by (simp add: video_mute_def image_compress_def video_convert_def image_convert_def)
  ultimately show ?thesis
    using set_expand_inputs[of glob "disk w" inputs] expand_inputs_matched[of glob "disk w" inputs]
    by blast
qed

lemma demo_expand:
  "expand_inputs demo_glob (disk demo_world) [''*.mkv'', ''./a.mkv'', ''missing.mkv'']
     = [[''a.mkv''], [''b.mkv'']]"
  by code_simp

lemma demo_expand_none: "expand_inputs demo_glob (disk demo_world) [''missing.mkv''] = []"
  by code_simp

theorem C6_expand_inputs_witness:
  "expand_inputs demo_glob (disk demo_world) [''*.mkv'', ''./a.mkv'', ''missing.mkv'']
     = [[''a.mkv''], [''b.mkv'']]
   \<and> distinct (expand_inputs demo_glob (disk demo_world) [''*.mkv'', ''./a.mkv'', ''missing.mkv''])
   \<and> video_mute failing_bin demo_glob [''ffmpeg''] False [''missing.mkv''] False demo_world
       = (Inl (ClickException ''No input files resolved''), demo_world)"
proof -
  note full = C6_expand_inputs[where glob = demo_glob and w = demo_world
        and inputs = "[''*.mkv'', ''./a.mkv'', ''missing.mkv'']"]
  note none = C6_expand_inputs[where glob = demo_glob and w = demo_world
        and inputs = "[''missing.mkv'']" and bin = failing_bin and ffmpeg = "[''ffmpeg'']"
        and dry_run = False and force = False]
  have 1: "distinct (expand_inputs demo_glob (disk demo_world) [''*.mkv'', ''./a.mkv'', ''missing.mkv''])"
    by (rule full[THEN conjunct2, THEN conjunct1])
  have 3: "video_mute failing_bin demo_glob [''ffmpeg''] False [''missing.mkv''] False demo_world
       = (Inl (ClickException ''No input files resolved''), demo_world)"
    using none[THEN conjunct2, THEN conjunct2, THEN conjunct2, THEN conjunct2,
        of 0 "''mp4''" False "''png''"] demo_expand_none
    by blast
  show ?thesis
    using 1 3 demo_expand by (intro conjI) simp_all
qed

theorem C6_same_file_twice_counterexample:
  "expand_inputs plain_glob (disk alias_world) [''real.mp4'', ''sub/../real.mp4'']
     = [[''real.mp4''], [''sub'', ''..'', ''real.mp4'']]
   \<and> same_file (disk alias_world) [''real.mp4''] [''sub'', ''..'', ''real.mp4'']
   \<and> expand_inputs demo_glob (disk link_world) [''*.mkv''] = [[''a.mkv''], [''gone.mkv'']]
   \<and> \<not> exists (disk link_world) [''gone.mkv'']"
  by code_simp


section \<open>Collisions, tallies and the order of run and backup\<close>

lemma backup_original_frame:
  "out (snd (backup_original src w)) = out w
   \<and> invoked (snd (backup_original src w)) = invoked w
   \<and> created (snd (backup_original src w)) = created w"
  by (simp add: backup_original_def Let_def split: sum.splits)

lemma run_ffmpeg_called: "ffmpeg_called dry_run cmd w (snd (run_ffmpeg bin cmd dry_run w))"
  by (cases "bin cmd (disk w)"; cases "fst (bin cmd (disk w))")
     (auto simp: ffmpeg_called_def run_ffmpeg_def try_except_def subprocess_run_def handler_def
        is_Exception_def)

lemma ffmpeg_called_frame:
  assumes "ffmpeg_called dry_run cmd w w1" and "invoked w2 = invoked w1"
    and "\<exists>rest. out w2 = out w1 @ rest"
  shows "ffmpeg_called dry_run cmd w w2"
proof (cases dry_run)
  case False
  then show ?thesis
    using assms by (simp add: ffmpeg_called_def)
next
  case True
  from assms(3) obtain rest where r: "out w2 = out w1 @ rest"
    by blast
  have t: "take (Suc (length (out w))) (out w1) = out w @ [DryRunMsg cmd]"
    using assms(1) True by (simp add: ffmpeg_called_def)
  then have "Suc (length (out w)) \<le> length (out w1)"
    by (metis length_append_singleton length_take min.cobounded1 min_def nat_le_linear take_all)
  then have "take (Suc (length (out w))) (out w2) = take (Suc (length (out w))) (out w1)"
    using r by simp
  with t True assms show ?thesis
    by (simp add: ffmpeg_called_def)
qed

lemma run_and_backup_called:
  "ffmpeg_called dry_run cmd w (fst (snd (run_and_backup bin cmd dry_run src dst (w, ok, fail))))"
proof -
  obtain r w1 where rf: "run_ffmpeg bin cmd dry_run w = (r, w1)"
    by (cases "run_ffmpeg bin cmd dry_run w")
  have c: "ffmpeg_called dry_run cmd w w1"
    using run_ffmpeg_called[of dry_run cmd w bin] rf by simp
  obtain b w2 where bo: "backup_original src w1 = (b, w2)"
    by (cases "backup_original src w1")
  have f: "out w2 = out w1" "invoked w2 = invoked w1"
    using backup_original_frame[of src w1] bo by simp_all
  have c2: "ffmpeg_called dry_run cmd w w2"
    using c f by (intro ffmpeg_called_frame[OF c]) simp_all
  have c3: "ffmpeg_called dry_run cmd w (w2\<lparr>created := created w2 @ [dst]\<rparr>)"
    using c f by (intro ffmpeg_called_frame[OF c]) simp_all
  show ?thesis
    using rf bo c c2 c3
    by (auto simp: run_and_backup_def split: sum.splits bool.splits)
qed

lemma single_file_called:
  "ffmpeg_called dry_run cmd w (snd (single_file bin cmd dry_run src dst done_msg w))"
proof -
  obtain r w1 where rf: "run_ffmpeg bin cmd dry_run w = (r, w1)"
    by (cases "run_ffmpeg bin cmd dry_run w")
  have c: "ffmpeg_called dry_run cmd w w1"
    using run_ffmpeg_called[of dry_run cmd w bin] rf by simp
  obtain b w2 where bo: "backup_original src w1 = (b, w2)"
    by (cases "backup_original src w1")
  have f: "out w2 = out w1" "invoked w2 = invoked w1"
    using backup_original_frame[of src w1] bo by simp_all
  have c2: "ffmpeg_called dry_run cmd w w2"
    using c f by (intro ffmpeg_called_frame[OF c]) simp_all
  have c3: "ffmpeg_called dry_run cmd w
      (w2\<lparr>created := created w2 @ [dst], out := out w2 @ [done_msg dst]\<rparr>)"
    using c f by (intro ffmpeg_called_frame[OF c]) simp_all
  show ?thesis
    using rf bo c c2 c3
    by (auto simp: single_file_def split: sum.splits bool.splits)
qed

lemma count_exception_world: "fst (snd (count_exception r)) = fst (snd r)"
  by (cases r) (auto simp: count_exception_def split: sum.splits)

lemma suggest_path_fresh: "suggest_path fs p \<noteq> p \<and> \<not> exists fs (suggest_path fs p)"
proof -
  obtain k where k: "suggest_path fs p = numbered (parent p) (stem p) k (suffix p)"
      "\<not> exists fs (numbered (parent p) (stem p) k (suffix p))"
    using suggest_path_loop_first_free[of 1 fs "parent p" "stem p" "suffix p"]
    unfolding suggest_path_def by blast
  then show ?thesis
    using numbered_neq_self[of p k] by simp
qed

text \<open>
  C5. On a destination collision without \<open>--force\<close>, video convert and video mute skip
  the file: they print the skip message, count a failure and hand nothing to ffmpeg.
  Image convert, image compress, audio extract and audio convert go on: the command they
  hand to ffmpeg has the destination replaced by \<open>suggest_path\<close> of it, a path that
  differs from the taken one and does not exist.
\<close>

theorem C5_collision_policy:
  assumes "\<not> force"
  shows "(with_name src (stem src @ ''.'' @ format) = Inr dst \<and> exists (disk w) dst \<longrightarrow>
            video_convert_file bin ffmpeg dry_run format fast force src (w, ok, fail)
              = (Inr (), (w\<lparr>out := out w @ [SkippingMsg (name dst)]\<rparr>, ok, fail + 1))
          \<and> ffmpeg_called dry_run [str ffmpeg, ''-i'', str src, str (suggest_path (disk w) dst)] w
               (fst (snd (image_convert_file bin ffmpeg dry_run format force src (w, ok, fail)))))
       \<and> (exists (disk w) src \<longrightarrow>
            video_mute_file bin ffmpeg dry_run force src (w, ok, fail)
              = (Inr (), (w\<lparr>out := out w @ [SkippingMsg (name src)]\<rparr>, ok, fail + 1))
          \<and> ffmpeg_called dry_run (compress_cmd ffmpeg src (suggest_path (disk w) src) quality) w
               (fst (snd (image_compress_file bin ffmpeg dry_run quality force src (w, ok, fail)))))
       \<and> (exists (disk w) (Path input) \<and> with_suffix (Path input) ''.mp3'' = Inr adst
            \<and> exists (disk w) adst \<longrightarrow>
            ffmpeg_called dry_run
               [str ffmpeg, ''-i'', str (Path input), ''-vn'', ''-ab'', ''192k'', ''-map'', ''a'',
                str (suggest_path (disk w) adst)] w
               (snd (audio_extract bin ffmpeg dry_run input force w)))
       \<and> (lower aformat \<in> set AUDIO_FORMATS \<and> exists (disk w) (Path input)
            \<and> with_name (Path input) (stem (Path input) @ ''.'' @ aformat) = Inr cdst
            \<and> exists (disk w) cdst \<longrightarrow>
            ffmpeg_called dry_run
               [str ffmpeg, ''-i'', str (Path input), str (suggest_path (disk w) cdst)] w
               (snd (audio_convert bin ffmpeg dry_run input aformat force w)))
       \<and> suggest_path (disk w) p \<noteq> p \<and> \<not> exists (disk w) (suggest_path (disk w) p)"
proof -
  have a: "with_name src (stem src @ ''.'' @ format) = Inr dst \<and> exists (disk w) dst \<longrightarrow>
            video_convert_file bin ffmpeg dry_run format fast force src (w, ok, fail)
              = (Inr (), (w\<lparr>out := out w @ [SkippingMsg (name dst)]\<rparr>, ok, fail + 1))
          \<and> ffmpeg_called dry_run [str ffmpeg, ''-i'', str src, str (suggest_path (disk w) dst)] w
               (fst (snd (image_convert_file bin ffmpeg dry_run format force src (w, ok, fail))))"
    using assms
    by (simp add: video_convert_file_def image_convert_file_def run_and_backup_called Let_def)
  have b: "exists (disk w) src \<longrightarrow>
            video_mute_file bin ffmpeg dry_run force src (w, ok, fail)
              = (Inr (), (w\<lparr>out := out w @ [SkippingMsg (name src)]\<rparr>, ok, fail + 1))
          \<and> ffmpeg_called dry_run (compress_cmd ffmpeg src (suggest_path (disk w) src) quality) w
               (fst (snd (image_compress_file bin ffmpeg dry_run quality force src (w, ok, fail))))"
    using assms
    by (simp add: video_mute_file_def image_compress_file_def count_exception_world
        run_and_backup_called Let_def)
  have c: "exists (disk w) (Path input) \<and> with_suffix (Path input) ''.mp3'' = Inr adst
            \<and> exists (disk w) adst \<longrightarrow>
            ffmpeg_called dry_run
               [str ffmpeg, ''-i'', str (Path input), ''-vn'', ''-ab'', ''192k'', ''-map'', ''a'',
                str (suggest_path (disk w) adst)] w
               (snd (audio_extract bin ffmpeg dry_run input force w))"
    using assms by (simp add: audio_extract_def single_file_called Let_def)
  have d: "lower aformat \<in> set AUDIO_FORMATS \<and> exists (disk w) (Path input)
            \<and> with_name (Path input) (stem (Path input) @ ''.'' @ aformat) = Inr cdst
            \<and> exists (disk w) cdst \<longrightarrow>
            ffmpeg_called dry_run
               [str ffmpeg, ''-i'', str (Path input), str (suggest_path (disk w) cdst)] w
               (snd (audio_convert bin ffmpeg dry_run input aformat force w))"
    using assms by (simp add: audio_convert_def single_file_called Let_def)
  from a b c d suggest_path_fresh[of "disk w" p] show ?thesis
    by blast
qed

lemma demo_with_name: "with_name [''b.mkv''] (stem [''b.mkv''] @ ''.'' @ ''mp4'') = Inr [''b.mp4'']"
  by code_simp

lemma demo_exists_mp4: "exists (disk demo_world) [''b.mp4'']"
  by code_simp

lemma demo_suggest: "suggest_path (disk demo_world) [''b.mp4''] = [''b_1.mp4'']"
  by code_simp

theorem C5_collision_policy_witness:
  "video_convert_file writing_bin [''ffmpeg''] False ''mp4'' False False [''b.mkv''] (demo_world, 0, 0)
     = (Inr (), (demo_world\<lparr>out := out demo_world @ [SkippingMsg (name [''b.mp4''])]\<rparr>, 0, 0 + 1))
   \<and> ffmpeg_called False [str [''ffmpeg''], ''-i'', str [''b.mkv''], str [''b_1.mp4'']] demo_world
         (fst (snd (image_convert_file writing_bin [''ffmpeg''] False ''mp4'' False [''b.mkv'']
                      (demo_world, 0, 0))))"
proof -
  have n: "\<not> False"
    by simp
  note t = C5_collision_policy[where force = False and src = "[''b.mkv'']" and format = "''mp4''"
      and dst = "[''b.mp4'']" and w = demo_world and bin = writing_bin and ffmpeg = "[''ffmpeg'']"
      and dry_run = False and fast = False and ok = 0 and fail = 0, OF n, THEN conjunct1]
  from t demo_with_name demo_exists_mp4 show ?thesis
    unfolding demo_suggest by blast
qed
















text \<open>
  C2. In a dry run \<open>run_ffmpeg\<close> reports success without running anything, and the
  caller then moves the source into the backup directory: after a dry run of image
  convert on \<open>a.png\<close> nothing was run, \<open>a.webp\<close> does not exist, and \<open>a.png\<close> is
  gone from its place.
\<close>

theorem C2_dry_run_moves_original:
  "image_convert failing_bin plain_glob [''ffmpeg''] True [''a.png''] ''webp'' False photo_world
     = (Inr (),
        \<lparr>disk = [([''backup'', ''a.png''], File), ([''backup''], Dir)],
         created = [[''a.webp'']],
         out = [DryRunMsg [''ffmpeg'', ''-i'', ''a.png'', ''a.webp''], CompletedMsg 1 0],
         invoked = []\<rparr>)"
  by code_simp

text \<open>
  C3. Only image compress catches the exceptions of one file. In video convert the
  exception of a failed backup (here \<open>backup\<close> is a regular file, so \<open>mkdir\<close> raises)
  leaves the loop: the batch stops at the first file, the second is never processed and
  no summary is printed. Image compress on the same disk counts both files as failures
  and prints its report.
\<close>

theorem C3_backup_failure_aborts_batch:
  "video_convert writing_bin demo_glob [''ffmpeg''] False [''*.mkv''] ''mp4'' False False blocked_world
     = (Inl FileExistsError,
        \<lparr>disk = [([''a.mkv''], File), ([''b.mkv''], File), ([''backup''], File), ([''a.mp4''], File)],
         created = [], out = [],
         invoked = [[''ffmpeg'', ''-i'', ''a.mkv'', ''-map'', ''0'', ''-c:v'', ''libx264'',
                     ''-c:a'', ''aac'', ''-movflags'', ''+faststart'', ''a.mp4'']]\<rparr>)
   \<and> fst (image_compress writing_bin demo_glob [''ffmpeg''] False [''*.mkv''] 70 False blocked_world)
       = Inr ()
   \<and> out (snd (image_compress writing_bin demo_glob [''ffmpeg''] False [''*.mkv''] 70 False blocked_world))
       = [BatchReportMsg 0 2]"
  by code_simp






end
